theory Spec2Isabelle
  imports Main
begin

section \<open>Data model of the chat client (rag-frontend/src/App.jsx)\<close>

text \<open>
  The component \<open>App\<close> keeps its state in React state cells and refs. Every handler of
  the component is modelled as a function from the state before the handler to the state
  after it. What a handler does to the outside world (frames written to the WebSocket,
  HTTP requests, \<open>antMessage\<close> notifications, timers) is recorded in log fields of the
  state, in program order. \<open>console.log\<close> and \<open>console.error\<close> are left out.

  A transcript entry is the object literal the code builds: \<open>{type, content}\<close> for user
  and error entries, \<open>{type, content, isStreaming}\<close> for assistant entries. A field that
  the literal does not have (JavaScript \<open>undefined\<close>) is \<open>None\<close>.

  A JavaScript string is modelled by the bytes of its UTF-8 encoding: a character beyond
  ASCII is a sequence of two or three bytes, and concatenation and equality of strings
  are concatenation and equality of their encodings.
\<close>

datatype role = User | Assistant | Error

record message =
  msg_type :: role
  content :: "string option"
  msg_isStreaming :: "bool option"

text \<open>
  \<open>lastMessage.isStreaming\<close> and \<open>message.isStreaming\<close> are only ever read as a
  condition: \<open>undefined\<close> and \<open>false\<close> are falsy, \<open>true\<close> is truthy.
\<close>

definition streaming_entry :: "message \<Rightarrow> bool" where
  "streaming_entry m = (msg_isStreaming m = Some True)"

record document =
  filename :: string
  doc_type :: string
  doc_size :: nat

text \<open>
  What \<open>response.json()\<close> yields for \<open>GET /documents\<close>: the array of document
  objects, or any other JSON value (kept as its text). \<open>setDocuments\<close> stores either.
\<close>

datatype json_value = JDocs "document list" | JOther string

datatype upload_status = Uploading | Success | Failed

datatype notice = NLoading string | NSuccess string | NError string

datatype request = GET string | POST string | DELETE string

record state =
  messages :: "message list"
  currentMessage :: string
  isConnected :: bool
  isStreaming :: bool
  documents :: json_value
  uploadProgress :: "(string \<times> upload_status) option"
  currentResponseRef :: string
  sent :: "string list"
  requests :: "request list"
  notices :: "notice list"
  timers :: nat

text \<open>
  \<open>sent\<close> lists the frames given to \<open>websocketRef.current.send\<close>; each frame is
  \<open>JSON.stringify({ message: text })\<close> and is recorded by its \<open>text\<close>. \<open>timers\<close>
  counts the pending \<open>setTimeout(() => setUploadProgress(null), 3000)\<close> callbacks.
\<close>

definition initial_state :: state where
  "initial_state =
     \<lparr>messages = [], currentMessage = [], isConnected = False, isStreaming = False,
      documents = JDocs [], uploadProgress = None, currentResponseRef = [],
      sent = [], requests = [], notices = [], timers = 0\<rparr>"

section \<open>The WebSocket handlers\<close>

text \<open>
  \<open>onmessage\<close> starts with \<open>JSON.parse(event.data)\<close> and then reads \<open>data.type\<close>
  and \<open>data.data\<close>. The argument of the model is what \<open>JSON.parse\<close> does with the
  frame:
  \<^item> \<open>Unparseable\<close>: the text is not JSON and \<open>JSON.parse\<close> throws a \<open>SyntaxError\<close>;
  \<^item> \<open>NullValue\<close>: the text is the JSON value \<open>null\<close>, and reading \<open>data.type\<close>
    throws a \<open>TypeError\<close>;
  \<^item> \<open>Envelope t d\<close>: any other JSON value; \<open>t\<close> is its \<open>type\<close> property and \<open>d\<close>
    its \<open>data\<close> property, \<open>None\<close> where the value has no such property. Following the
    wire format \<open>{ type, data?: string }\<close>, both properties are strings when present.
\<close>

datatype payload = Unparseable | NullValue | Envelope "string option" "string option"

datatype exn = SyntaxError | TypeError

text \<open>
  \<open>currentResponseRef.current += data.data\<close> is string concatenation: a missing
  \<open>data\<close> is converted to the text \<open>undefined\<close>.
\<close>

definition to_string :: "string option \<Rightarrow> string" where
  "to_string d = (case d of None \<Rightarrow> ''undefined'' | Some x \<Rightarrow> x)"

text \<open>
  The two updater functions given to \<open>setMessages\<close> copy the array and then work on
  \<open>newMessages[newMessages.length - 1]\<close>, which is \<open>undefined\<close> (falsy) for the
  empty array.
\<close>

definition token_update :: "string \<Rightarrow> message list \<Rightarrow> message list" where
  "token_update r prev =
     (if prev = [] then prev
      else let lastMessage = prev ! (length prev - 1) in
        if msg_type lastMessage = Assistant \<and> streaming_entry lastMessage
        then prev[length prev - 1 := lastMessage\<lparr>content := Some r\<rparr>]
        else prev)"

definition complete_update :: "message list \<Rightarrow> message list" where
  "complete_update prev =
     (if prev = [] then prev
      else let lastMessage = prev ! (length prev - 1) in
        if msg_type lastMessage = Assistant
        then prev[length prev - 1 := lastMessage\<lparr>msg_isStreaming := Some False\<rparr>]
        else prev)"

text \<open>
  The handler has no \<open>try\<close> of its own, and the \<open>try\<close> of \<open>connectWebSocket\<close> is
  over by the time a frame arrives: an exception leaves the handler. Both exceptions are
  raised before the first state update, so \<open>Inl e\<close> stands for "threw \<open>e\<close>, state as
  before". The \<open>switch\<close> compares \<open>data.type\<close> with \<open>===\<close> and has no default case.
\<close>

definition onmessage :: "payload \<Rightarrow> state \<Rightarrow> exn + state" where
  "onmessage p s =
     (case p of
        Unparseable \<Rightarrow> Inl SyntaxError
      | NullValue \<Rightarrow> Inl TypeError
      | Envelope t d \<Rightarrow> Inr
          (if t = Some ''start'' then
             s\<lparr>isStreaming := True, currentResponseRef := [],
               messages := messages s @
                 [\<lparr>msg_type = Assistant, content = Some [], msg_isStreaming = Some True\<rparr>]\<rparr>
           else if t = Some ''token'' then
             (let r = currentResponseRef s @ to_string d in
              s\<lparr>currentResponseRef := r, messages := token_update r (messages s)\<rparr>)
           else if t = Some ''complete'' then
             s\<lparr>isStreaming := False, messages := complete_update (messages s)\<rparr>
           else if t = Some ''error'' then
             s\<lparr>isStreaming := False,
               messages := messages s @
                 [\<lparr>msg_type = Error, content = d, msg_isStreaming = None\<rparr>],
               notices := notices s @
                 [NError ''Error occurred while processing your message'']\<rparr>
           else s))"

definition onopen :: "state \<Rightarrow> state" where
  "onopen s = s\<lparr>isConnected := True\<rparr>"

definition onclose :: "state \<Rightarrow> state" where
  "onclose s = s\<lparr>isConnected := False, isStreaming := False\<rparr>"

definition onerror :: "state \<Rightarrow> state" where
  "onerror s = s\<lparr>isConnected := False\<rparr>"

text \<open>
  The browser calls \<open>onmessage\<close> once for each frame, in arrival order. An exception
  that leaves one call is reported by the browser and does not stop the next call.
\<close>

definition deliver :: "payload \<Rightarrow> state \<Rightarrow> state" where
  "deliver p s = (case onmessage p s of Inl e \<Rightarrow> s | Inr s' \<Rightarrow> s')"

fun run :: "payload list \<Rightarrow> state \<Rightarrow> state" where
  "run [] s = s"
| "run (p # ps) s = run ps (deliver p s)"

abbreviation start_event :: payload where
  "start_event \<equiv> Envelope (Some ''start'') None"

abbreviation token_event :: "string \<Rightarrow> payload" where
  "token_event f \<equiv> Envelope (Some ''token'') (Some f)"

abbreviation complete_event :: payload where
  "complete_event \<equiv> Envelope (Some ''complete'') None"

abbreviation error_event :: "string \<Rightarrow> payload" where
  "error_event e \<equiv> Envelope (Some ''error'') (Some e)"

section \<open>Sending\<close>

text \<open>
  \<open>String.prototype.trim\<close> removes the white space and line terminator characters
  of ECMAScript from both ends of the string. These are, with their UTF-8 encodings in
  the order of \<open>white_space\<close>: tab, line feed, vertical tab, form feed, carriage
  return and space (one byte each); U+00A0 no-break space; U+1680; U+2000 to U+200A;
  U+2028 line separator, U+2029 paragraph separator and U+202F; U+205F; U+3000; and
  U+FEFF. \<open>is_ws w\<close> says that \<open>w\<close> is the encoding of one such character. A
  byte that is only part of an encoding is not white space: \<open>0xA0\<close> alone is the
  second byte of U+00A0 and also the last byte of U+00E0.
\<close>

definition white_space :: "string list" where
  "white_space =
     [[CHR 0x09], [CHR 0x0A], [CHR 0x0B], [CHR 0x0C], [CHR 0x0D], [CHR 0x20],
      [CHR 0xC2, CHR 0xA0],
      [CHR 0xE1, CHR 0x9A, CHR 0x80],
      [CHR 0xE2, CHR 0x80, CHR 0x80], [CHR 0xE2, CHR 0x80, CHR 0x81],
      [CHR 0xE2, CHR 0x80, CHR 0x82], [CHR 0xE2, CHR 0x80, CHR 0x83],
      [CHR 0xE2, CHR 0x80, CHR 0x84], [CHR 0xE2, CHR 0x80, CHR 0x85],
      [CHR 0xE2, CHR 0x80, CHR 0x86], [CHR 0xE2, CHR 0x80, CHR 0x87],
      [CHR 0xE2, CHR 0x80, CHR 0x88], [CHR 0xE2, CHR 0x80, CHR 0x89],
      [CHR 0xE2, CHR 0x80, CHR 0x8A],
      [CHR 0xE2, CHR 0x80, CHR 0xA8], [CHR 0xE2, CHR 0x80, CHR 0xA9],
      [CHR 0xE2, CHR 0x80, CHR 0xAF],
      [CHR 0xE2, CHR 0x81, CHR 0x9F],
      [CHR 0xE3, CHR 0x80, CHR 0x80],
      [CHR 0xEF, CHR 0xBB, CHR 0xBF]]"

definition is_ws :: "string \<Rightarrow> bool" where
  "is_ws w = (w \<in> set white_space)"

text \<open>
  \<open>trimStart\<close> removes such characters from the front as long as there is one. No
  encoding in \<open>white_space\<close> starts with another one, so the order of the three tests
  does not matter. \<open>trimEnd\<close> does the same from the back: \<open>trimEnd_rev\<close> works on
  the reversed string, where the bytes of a character come last byte first. A UTF-8
  encoding ends in a given character's bytes only when that character is its last one.
\<close>

fun trimStart :: "string \<Rightarrow> string" where
  "trimStart (a # b # c # r) =
     (if is_ws [a] then trimStart (b # c # r)
      else if is_ws [a, b] then trimStart (c # r)
      else if is_ws [a, b, c] then trimStart r
      else a # b # c # r)"
| "trimStart [a, b] =
     (if is_ws [a] then trimStart [b] else if is_ws [a, b] then [] else [a, b])"
| "trimStart [a] = (if is_ws [a] then [] else [a])"
| "trimStart [] = []"

fun trimEnd_rev :: "string \<Rightarrow> string" where
  "trimEnd_rev (a # b # c # r) =
     (if is_ws [a] then trimEnd_rev (b # c # r)
      else if is_ws [b, a] then trimEnd_rev (c # r)
      else if is_ws [c, b, a] then trimEnd_rev r
      else a # b # c # r)"
| "trimEnd_rev [a, b] =
     (if is_ws [a] then trimEnd_rev [b] else if is_ws [b, a] then [] else [a, b])"
| "trimEnd_rev [a] = (if is_ws [a] then [] else [a])"
| "trimEnd_rev [] = []"

definition trimEnd :: "string \<Rightarrow> string" where
  "trimEnd x = rev (trimEnd_rev (rev x))"

definition trim :: "string \<Rightarrow> string" where
  "trim x = trimEnd (trimStart x)"

text \<open>A blank string is a sequence of white space and line terminator characters.\<close>

inductive blank :: "string \<Rightarrow> bool" where
  blank_Nil: "blank []"
| blank_ws: "is_ws w \<Longrightarrow> blank x \<Longrightarrow> blank (w @ x)"

definition sendMessage :: "state \<Rightarrow> state" where
  "sendMessage s =
     (if trim (currentMessage s) = [] \<or> \<not> isConnected s \<or> isStreaming s then s
      else s\<lparr>messages := messages s @
                [\<lparr>msg_type = User, content = Some (currentMessage s), msg_isStreaming = None\<rparr>],
             sent := sent s @ [currentMessage s],
             currentMessage := []\<rparr>)"

section \<open>The REST calls\<close>

text \<open>
  \<open>fetch\<close> either rejects (the request could not be made or answered) or resolves to
  a response, whatever its HTTP status: \<open>ok\<close> is true for a status in 200..299, and
  \<open>json\<close> is the parsed body, \<open>None\<close> when the body is not JSON and
  \<open>response.json()\<close> rejects. Each \<open>async\<close> handler is modelled from its call to its
  completion, given the outcomes of the requests it makes.
\<close>

record response =
  ok :: bool
  json :: "json_value option"

datatype fetch_result = Rejected | Resolved response

definition fetchDocuments :: "fetch_result \<Rightarrow> state \<Rightarrow> state" where
  "fetchDocuments r s =
     (let s1 = s\<lparr>requests := requests s @ [GET ''http://localhost:8000/documents'']\<rparr>;
          failed = s1\<lparr>notices := notices s1 @ [NError ''Failed to fetch documents'']\<rparr>
      in case r of
           Rejected \<Rightarrow> failed
         | Resolved resp \<Rightarrow>
             (case json resp of
                None \<Rightarrow> failed
              | Some docs \<Rightarrow> s1\<lparr>documents := docs\<rparr>))"

text \<open>
  \<open>handleFileUpload\<close> gets the file list of the input element (each file modelled by
  its name), the outcome of \<open>POST /upload\<close> and the outcome of the \<open>GET /documents\<close>
  that follows a successful upload. Its last statement resets the input element, which
  is not part of the component's state.
\<close>

definition handleFileUpload :: "string list \<Rightarrow> fetch_result \<Rightarrow> fetch_result \<Rightarrow> state \<Rightarrow> state" where
  "handleFileUpload files up ls s =
     (case files of
        [] \<Rightarrow> s
      | file # _ \<Rightarrow>
          (let s1 = s\<lparr>uploadProgress := Some (file, Uploading),
                      notices := notices s @ [NLoading (''Uploading '' @ file @ ''...'')],
                      requests := requests s @ [POST ''http://localhost:8000/upload'']\<rparr>;
               caught = (\<lambda>s'. s'\<lparr>uploadProgress := Some (file, Failed),
                                  notices := notices s' @ [NError ''Upload failed!''],
                                  timers := timers s' + 1\<rparr>)
           in case up of
                Rejected \<Rightarrow> caught s1
              | Resolved resp \<Rightarrow>
                  if ok resp then
                    (let s2 = fetchDocuments ls (s1\<lparr>uploadProgress := Some (file, Success)\<rparr>)
                     in s2\<lparr>notices := notices s2 @ [NSuccess ''File uploaded successfully!''],
                           timers := timers s2 + 1\<rparr>)
                  else caught s1))"

definition deleteDocument :: "string \<Rightarrow> fetch_result \<Rightarrow> fetch_result \<Rightarrow> state \<Rightarrow> state" where
  "deleteDocument name del ls s =
     (let s1 = s\<lparr>requests := requests s @ [DELETE (''http://localhost:8000/documents/'' @ name)]\<rparr>;
          failed = s1\<lparr>notices := notices s1 @ [NError ''Failed to delete document'']\<rparr>
      in case del of
           Rejected \<Rightarrow> failed
         | Resolved resp \<Rightarrow>
             if ok resp then
               (let s2 = fetchDocuments ls s1
                in s2\<lparr>notices := notices s2 @ [NSuccess ''Document deleted successfully'']\<rparr>)
             else failed)"

definition clearChat :: "fetch_result \<Rightarrow> state \<Rightarrow> state" where
  "clearChat r s =
     (let s1 = s\<lparr>requests := requests s @ [POST ''http://localhost:8000/chat/clear'']\<rparr>
      in case r of
           Rejected \<Rightarrow> s1\<lparr>notices := notices s1 @ [NError ''Failed to clear chat'']\<rparr>
         | Resolved resp \<Rightarrow>
             s1\<lparr>messages := [], notices := notices s1 @ [NSuccess ''Chat cleared successfully'']\<rparr>)"

section \<open>The streaming invariant\<close>

text \<open>
  A response is in progress when the last entry of the transcript is streaming. The
  invariant on a transcript: no entry before the last one is streaming, and a streaming
  last entry is an assistant entry.
\<close>

definition in_progress :: "message list \<Rightarrow> bool" where
  "in_progress ms = (ms \<noteq> [] \<and> streaming_entry (last ms))"

definition stream_inv :: "message list \<Rightarrow> bool" where
  "stream_inv ms =
     ((\<forall>m \<in> set (butlast ms). \<not> streaming_entry m)
      \<and> (in_progress ms \<longrightarrow> msg_type (last ms) = Assistant))"

text \<open>
  The events that append an entry are \<open>start\<close> and \<open>error\<close>. A sequence of events is
  orderly from a state when each of its appending events arrives while no response is in
  progress, that is, after the \<open>complete\<close> of the response before it.
\<close>

definition opens_entry :: "payload \<Rightarrow> bool" where
  "opens_entry p =
     (case p of Envelope t d \<Rightarrow> t = Some ''start'' \<or> t = Some ''error'' | _ \<Rightarrow> False)"

fun orderly :: "payload list \<Rightarrow> state \<Rightarrow> bool" where
  "orderly [] s = True"
| "orderly (p # ps) s =
     ((opens_entry p \<longrightarrow> \<not> in_progress (messages s)) \<and> orderly ps (deliver p s))"

section \<open>Example states and inputs\<close>

text \<open>
  A connected client with the draft \<open>hello\<close>; a connected client whose draft is two
  spaces; one whose draft is U+00A0, U+2028 and a line feed;
  the client in the middle of a response (the user sent \<open>hi\<close>, then \<open>start\<close> and one
  \<open>token\<close> arrived); the client after that response was completed; and a client that
  holds a listing of one document.
\<close>

definition ready_state :: state where
  "ready_state = initial_state\<lparr>isConnected := True, currentMessage := ''hello''\<rparr>"

definition blank_state :: state where
  "blank_state = initial_state\<lparr>isConnected := True, currentMessage := ''  ''\<rparr>"

definition nbsp_state :: state where
  "nbsp_state =
     initial_state\<lparr>isConnected := True,
       currentMessage := [CHR 0xC2, CHR 0xA0, CHR 0xE2, CHR 0x80, CHR 0xA8, CHR 0x0A]\<rparr>"

definition mid_stream_state :: state where
  "mid_stream_state =
     initial_state\<lparr>isConnected := True, isStreaming := True,
       currentResponseRef := ''The doc'', sent := [''hi''],
       messages :=
         [\<lparr>msg_type = User, content = Some ''hi'', msg_isStreaming = None\<rparr>,
          \<lparr>msg_type = Assistant, content = Some ''The doc'', msg_isStreaming = Some True\<rparr>]\<rparr>"

definition answered_state :: state where
  "answered_state =
     initial_state\<lparr>isConnected := True,
       currentResponseRef := ''The doc'', sent := [''hi''],
       messages :=
         [\<lparr>msg_type = User, content = Some ''hi'', msg_isStreaming = None\<rparr>,
          \<lparr>msg_type = Assistant, content = Some ''The doc'', msg_isStreaming = Some False\<rparr>]\<rparr>"

definition listed_state :: state where
  "listed_state =
     initial_state\<lparr>documents :=
       JDocs [\<lparr>filename = ''report.txt'', doc_type = ''text/plain'', doc_size = 12\<rparr>]\<rparr>"

text \<open>
  Two responses in a row, the second still streaming; and the channel closing after
  \<open>start\<close> and one \<open>token\<close>.
\<close>

definition example_events :: "payload list" where
  "example_events =
     [start_event, token_event ''The '', token_event ''doc'', complete_event,
      start_event, token_event ''Yes'']"

definition closed_mid_stream :: state where
  "closed_mid_stream = onclose (run [start_event, token_event ''The ''] (onopen initial_state))"

text \<open>
  The backend answers with HTTP status 500: \<open>fetch\<close> resolves, \<open>response.ok\<close>
  is false. The body is plain text in the first answer and the JSON value \<open>{}\<close> in the
  second.
\<close>

definition http_error_text :: fetch_result where
  "http_error_text = Resolved \<lparr>ok = False, json = None\<rparr>"

definition http_error_json :: fetch_result where
  "http_error_json = Resolved \<lparr>ok = False, json = Some (JOther ''{}'')\<rparr>"

section \<open>Basic facts about the handlers\<close>

lemma onmessage_envelope: "onmessage (Envelope t d) s = Inr (deliver (Envelope t d) s)"
  by (simp add: deliver_def onmessage_def)

lemma deliver_start:
  "deliver start_event s =
     s\<lparr>isStreaming := True, currentResponseRef := [],
       messages := messages s @
         [\<lparr>msg_type = Assistant, content = Some [], msg_isStreaming = Some True\<rparr>]\<rparr>"
  by (simp add: deliver_def onmessage_def)

lemma deliver_token:
  "deliver (Envelope (Some ''token'') d) s =
     s\<lparr>currentResponseRef := currentResponseRef s @ to_string d,
       messages := token_update (currentResponseRef s @ to_string d) (messages s)\<rparr>"
  by (simp add: deliver_def onmessage_def Let_def)

lemma deliver_complete:
  "deliver (Envelope (Some ''complete'') d) s =
     s\<lparr>isStreaming := False, messages := complete_update (messages s)\<rparr>"
  by (simp add: deliver_def onmessage_def)

lemma token_update_snoc:
  "token_update r (xs @ [x]) =
     (if msg_type x = Assistant \<and> streaming_entry x then xs @ [x\<lparr>content := Some r\<rparr>]
      else xs @ [x])"
  by (simp add: token_update_def)

lemma complete_update_snoc:
  "complete_update (xs @ [x]) =
     (if msg_type x = Assistant then xs @ [x\<lparr>msg_isStreaming := Some False\<rparr>] else xs @ [x])"
  by (simp add: complete_update_def)

lemma map_update_same: "f v = f (xs ! i) \<Longrightarrow> map f (xs[i := v]) = map f xs"
  by (metis list_update_id map_update)

section \<open>White space\<close>

lemma is_ws_length: "is_ws w \<Longrightarrow> length w = 1 \<or> length w = 2 \<or> length w = 3"
  unfolding is_ws_def white_space_def by (elim disjE | simp)+

lemma ws2_not_ws1: "is_ws [a, b] \<Longrightarrow> \<not> is_ws [a]"
  by (auto simp add: is_ws_def white_space_def)

lemma ws3_not_ws1: "is_ws [a, b, c] \<Longrightarrow> \<not> is_ws [a] \<and> \<not> is_ws [a, b]"
  by (auto simp add: is_ws_def white_space_def)

lemma ws2_not_ws1_rev: "is_ws [a, b] \<Longrightarrow> \<not> is_ws [b]"
  by (auto simp add: is_ws_def white_space_def)

lemma ws3_not_ws1_rev: "is_ws [a, b, c] \<Longrightarrow> \<not> is_ws [c] \<and> \<not> is_ws [b, c]"
  by (auto simp add: is_ws_def white_space_def)

lemma is_ws_shape:
  assumes "is_ws w"
  obtains a where "w = [a]" | a b where "w = [a, b]" | a b c where "w = [a, b, c]"
proof -
  from assms have "length w = 1 \<or> length w = 2 \<or> length w = 3" by (rule is_ws_length)
  then consider "length w = Suc 0" | "length w = Suc (Suc 0)" | "length w = Suc (Suc (Suc 0))"
    by (auto simp add: numeral_2_eq_2 numeral_3_eq_3)
  then show thesis
  proof cases
    case 1
    then obtain a where "w = [a]" by (auto simp add: length_Suc_conv)
    then show thesis by (rule that(1))
  next
    case 2
    then obtain a b where "w = [a, b]" by (auto simp add: length_Suc_conv)
    then show thesis by (rule that(2))
  next
    case 3
    then obtain a b c where "w = [a, b, c]" by (auto simp add: length_Suc_conv)
    then show thesis by (rule that(3))
  qed
qed

lemma trimStart_ws: "is_ws w \<Longrightarrow> trimStart (w @ x) = trimStart x"
proof -
  assume w: "is_ws w"
  then show ?thesis
  proof (cases rule: is_ws_shape)
    case (1 a)
    with w show ?thesis by (cases x rule: trimStart.cases) simp_all
  next
    case (2 a b)
    with w ws2_not_ws1[of a b] show ?thesis by (cases x) simp_all
  next
    case (3 a b c)
    with w ws3_not_ws1[of a b c] show ?thesis by simp
  qed
qed

lemma trimEnd_rev_ws: "is_ws w \<Longrightarrow> trimEnd_rev (rev w @ x) = trimEnd_rev x"
proof -
  assume w: "is_ws w"
  then show ?thesis
  proof (cases rule: is_ws_shape)
    case (1 a)
    with w show ?thesis by (cases x rule: trimEnd_rev.cases) simp_all
  next
    case (2 a b)
    with w ws2_not_ws1_rev[of a b] show ?thesis by (cases x) simp_all
  next
    case (3 a b c)
    with w ws3_not_ws1_rev[of a b c] show ?thesis by simp
  qed
qed

lemma blank_append: "blank p \<Longrightarrow> blank q \<Longrightarrow> blank (p @ q)"
  by (induction rule: blank.induct) (simp_all add: blank_ws)

lemma blank_one: "is_ws w \<Longrightarrow> blank w"
  using blank_ws[OF _ blank_Nil] by simp

lemma trimStart_skip: "blank p \<Longrightarrow> trimStart (p @ x) = trimStart x"
  by (induction rule: blank.induct) (simp_all add: trimStart_ws)

lemma split_front: "is_ws w \<Longrightarrow> \<exists>p. blank p \<and> r = p @ t \<Longrightarrow> \<exists>p. blank p \<and> w @ r = p @ t"
  using blank_ws by fastforce

lemma split_none: "\<exists>p. blank p \<and> x = p @ x"
  using blank_Nil by fastforce

lemma trimStart_split: "\<exists>p. blank p \<and> x = p @ trimStart x"
proof (induction x rule: trimStart.induct)
  case (1 a b c r)
  then show ?case
    using split_front[of "[a]" "b # c # r"] split_front[of "[a, b]" "c # r"]
      split_front[of "[a, b, c]" r] split_none[of "a # b # c # r"]
    by simp
next
  case (2 a b)
  then show ?case
    using split_front[of "[a]" "[b]"] split_front[of "[a, b]" "[]" "[]"] split_none[of "[a, b]"]
      blank_Nil
    by simp
next
  case (3 a)
  then show ?case
    using split_front[of "[a]" "[]" "[]"] split_none[of "[a]"] blank_Nil by simp
next
  case 4
  then show ?case using blank_Nil by simp
qed

lemma split_back:
  "is_ws w \<Longrightarrow> \<exists>p. blank p \<and> r = rev p @ t \<Longrightarrow> \<exists>p. blank p \<and> rev w @ r = rev p @ t"
proof -
  assume w: "is_ws w" and "\<exists>p. blank p \<and> r = rev p @ t"
  then obtain p where p: "blank p" "r = rev p @ t" by blast
  from p(1) w have "blank (p @ w)" by (simp add: blank_append blank_one)
  moreover from p(2) have "rev w @ r = rev (p @ w) @ t" by simp
  ultimately show ?thesis by blast
qed

lemma split_none_back: "\<exists>p. blank p \<and> x = rev p @ x"
  using blank_Nil by fastforce

lemma trimEnd_rev_split: "\<exists>p. blank p \<and> x = rev p @ trimEnd_rev x"
proof (induction x rule: trimEnd_rev.induct)
  case (1 a b c r)
  then show ?case
    using split_back[of "[a]" "b # c # r"] split_back[of "[b, a]" "c # r"]
      split_back[of "[c, b, a]" r] split_none_back[of "a # b # c # r"]
    by simp
next
  case (2 a b)
  then show ?case
    using split_back[of "[a]" "[b]"] split_back[of "[b, a]" "[]" "[]"]
      split_none_back[of "[a, b]"] blank_Nil
    by simp
next
  case (3 a)
  then show ?case
    using split_back[of "[a]" "[]" "[]"] split_none_back[of "[a]"] blank_Nil by simp
next
  case 4
  then show ?case using blank_Nil by simp
qed

text \<open>The trimmed draft is empty exactly when the draft is blank.\<close>

lemma trim_empty_iff: "trim x = [] \<longleftrightarrow> blank x"
proof
  assume "trim x = []"
  then have e: "trimEnd_rev (rev (trimStart x)) = []" by (simp add: trim_def trimEnd_def)
  from trimEnd_rev_split[of "rev (trimStart x)"] e
  obtain q where q: "blank q" "rev (trimStart x) = rev q" by auto
  from trimStart_split[of x] obtain p where p: "blank p" "x = p @ trimStart x" by blast
  from q(2) have "trimStart x = q" by simp
  with p q(1) show "blank x" using blank_append by metis
next
  assume "blank x"
  then have "trimStart x = []" using trimStart_skip[of x "[]"] by simp
  then show "trim x = []" by (simp add: trim_def trimEnd_def)
qed

section \<open>Token accumulation\<close>

text \<open>
  While the last entry is the streaming assistant entry and shows the buffer, every
  further \<open>token\<close> extends both by its fragment.
\<close>

lemma run_tokens:
  "messages s = ms @ [\<lparr>msg_type = Assistant, content = Some (currentResponseRef s),
                       msg_isStreaming = Some True\<rparr>]
   \<Longrightarrow> messages (run (map token_event fs) s) =
         ms @ [\<lparr>msg_type = Assistant, content = Some (currentResponseRef s @ concat fs),
                msg_isStreaming = Some True\<rparr>]
       \<and> currentResponseRef (run (map token_event fs) s) = currentResponseRef s @ concat fs"
proof (induction fs arbitrary: s)
  case Nil
  then show ?case by simp
next
  case (Cons f fs)
  let ?s1 = "deliver (token_event f) s"
  have "messages ?s1 =
        ms @ [\<lparr>msg_type = Assistant, content = Some (currentResponseRef ?s1),
               msg_isStreaming = Some True\<rparr>]"
    using Cons.prems
    by (simp add: deliver_token to_string_def token_update_snoc streaming_entry_def)
  from Cons.IH[OF this] show ?case
    by (simp add: deliver_token to_string_def)
qed

text \<open>
  Claim C6. From any state, in particular with any old content of the accumulation
  buffer, a \<open>start\<close> event followed by \<open>token\<close> events carrying the fragments
  \<open>fs\<close> appends one assistant entry whose text is the concatenation of \<open>fs\<close> in
  delivery order; \<open>start\<close> empties the buffer, which then holds the same text.
\<close>

theorem start_then_tokens_concat:
  "messages (run (start_event # map token_event fs) s) =
     messages s @
       [\<lparr>msg_type = Assistant, content = Some (concat fs), msg_isStreaming = Some True\<rparr>]
   \<and> currentResponseRef (deliver start_event s) = []
   \<and> currentResponseRef (run (start_event # map token_event fs) s) = concat fs"
proof -
  let ?s1 = "deliver start_event s"
  have "messages ?s1 =
        messages s @ [\<lparr>msg_type = Assistant, content = Some (currentResponseRef ?s1),
                       msg_isStreaming = Some True\<rparr>]"
    by (simp add: deliver_start)
  from run_tokens[OF this, of fs] show ?thesis
    by (simp add: deliver_start)
qed

text \<open>
  Claim C9. When the transcript is empty, or its last entry is not an assistant entry
  that is streaming, a \<open>token\<close> event does not throw and leaves the transcript as it
  was: the fragment reaches the buffer only.
\<close>

theorem token_without_stream_discarded:
  "\<not> (messages s \<noteq> [] \<and> msg_type (last (messages s)) = Assistant
        \<and> streaming_entry (last (messages s)))
   \<Longrightarrow> onmessage (Envelope (Some ''token'') d) s = Inr (deliver (Envelope (Some ''token'') d) s)
     \<and> messages (deliver (Envelope (Some ''token'') d) s) = messages s"
  by (auto simp add: onmessage_envelope deliver_token token_update_def Let_def last_conv_nth)

text \<open>
  Witness for C9: the last entry of \<open>answered_state\<close> is an assistant entry that is no
  longer streaming, and a late \<open>token\<close> leaves both entries as they were.
\<close>

theorem token_without_stream_discarded_witness:
  "\<not> (messages answered_state \<noteq> [] \<and> msg_type (last (messages answered_state)) = Assistant
        \<and> streaming_entry (last (messages answered_state)))
   \<and> messages (deliver (token_event ''late'') answered_state) =
       [\<lparr>msg_type = User, content = Some ''hi'', msg_isStreaming = None\<rparr>,
        \<lparr>msg_type = Assistant, content = Some ''The doc'', msg_isStreaming = Some False\<rparr>]"
proof -
  have h: "\<not> (messages answered_state \<noteq> [] \<and> msg_type (last (messages answered_state)) = Assistant
        \<and> streaming_entry (last (messages answered_state)))"
    by (simp add: answered_state_def initial_state_def streaming_entry_def)
  have m: "messages answered_state =
       [\<lparr>msg_type = User, content = Some ''hi'', msg_isStreaming = None\<rparr>,
        \<lparr>msg_type = Assistant, content = Some ''The doc'', msg_isStreaming = Some False\<rparr>]"
    by (simp add: answered_state_def initial_state_def)
  from token_without_stream_discarded[OF h, of "Some ''late''"] h m show ?thesis
    by simp
qed

section \<open>Completion\<close>

lemma length_complete_update: "length (complete_update ms) = length ms"
  by (simp add: complete_update_def Let_def)

lemma map_content_complete_update: "map content (complete_update ms) = map content ms"
  by (simp add: complete_update_def Let_def map_update_same)

lemma map_type_complete_update: "map msg_type (complete_update ms) = map msg_type ms"
  by (simp add: complete_update_def Let_def map_update_same)

lemma butlast_complete_update: "butlast (complete_update ms) = butlast ms"
  by (simp add: complete_update_def Let_def butlast_list_update)

lemma last_complete_update:
  "ms \<noteq> [] \<Longrightarrow> last (complete_update ms) =
     (if msg_type (last ms) = Assistant then (last ms)\<lparr>msg_isStreaming := Some False\<rparr>
      else last ms)"
  by (simp add: complete_update_def Let_def last_conv_nth last_list_update)

text \<open>
  Claim C7. A \<open>complete\<close> event does not throw; the transcript keeps its length, the
  text and the role of every entry, and every entry before the last one as it is. The
  last entry, when it is an assistant entry, gets its streaming flag set to false and is
  otherwise unchanged; a last entry of another role is unchanged.
\<close>

theorem complete_frame:
  "onmessage (Envelope (Some ''complete'') d) s =
     Inr (deliver (Envelope (Some ''complete'') d) s)
   \<and> length (messages (deliver (Envelope (Some ''complete'') d) s)) = length (messages s)
   \<and> map content (messages (deliver (Envelope (Some ''complete'') d) s)) =
       map content (messages s)
   \<and> map msg_type (messages (deliver (Envelope (Some ''complete'') d) s)) =
       map msg_type (messages s)
   \<and> butlast (messages (deliver (Envelope (Some ''complete'') d) s)) = butlast (messages s)
   \<and> (messages s \<noteq> [] \<longrightarrow>
        last (messages (deliver (Envelope (Some ''complete'') d) s)) =
          (if msg_type (last (messages s)) = Assistant
           then (last (messages s))\<lparr>msg_isStreaming := Some False\<rparr>
           else last (messages s)))"
  by (simp add: onmessage_envelope deliver_complete length_complete_update
      map_content_complete_update map_type_complete_update butlast_complete_update
      last_complete_update)

text \<open>
  Witness for C7: in \<open>mid_stream_state\<close> the transcript is not empty, and \<open>complete\<close>
  turns its last entry into the frozen assistant entry with the same text.
\<close>

theorem complete_frame_witness:
  "messages mid_stream_state \<noteq> []
   \<and> last (messages (deliver complete_event mid_stream_state)) =
       \<lparr>msg_type = Assistant, content = Some ''The doc'', msg_isStreaming = Some False\<rparr>
   \<and> map content (messages (deliver complete_event mid_stream_state)) =
       [Some ''hi'', Some ''The doc'']"
proof -
  have m: "messages mid_stream_state =
       [\<lparr>msg_type = User, content = Some ''hi'', msg_isStreaming = None\<rparr>,
        \<lparr>msg_type = Assistant, content = Some ''The doc'', msg_isStreaming = Some True\<rparr>]"
    by (simp add: mid_stream_state_def initial_state_def)
  from complete_frame[of None mid_stream_state] m show ?thesis
    by simp
qed

section \<open>At most one streaming entry\<close>

lemma stream_inv_Nil: "stream_inv []"
  by (simp add: stream_inv_def in_progress_def)

lemma stream_inv_snoc:
  "stream_inv (ms @ [m]) \<longleftrightarrow>
     (\<forall>x \<in> set ms. \<not> streaming_entry x) \<and> (streaming_entry m \<longrightarrow> msg_type m = Assistant)"
  by (simp add: stream_inv_def in_progress_def)

lemma in_progress_snoc: "in_progress (ms @ [m]) = streaming_entry m"
  by (simp add: in_progress_def)

lemma idle_no_streaming:
  assumes "stream_inv ms" and "\<not> in_progress ms"
  shows "\<forall>x \<in> set ms. \<not> streaming_entry x"
proof (cases ms rule: rev_cases)
  case Nil
  then show ?thesis by simp
next
  case (snoc xs x)
  with assms show ?thesis by (simp add: stream_inv_snoc in_progress_snoc)
qed

lemma stream_inv_token_update: "stream_inv ms \<Longrightarrow> stream_inv (token_update r ms)"
proof (cases ms rule: rev_cases)
  case Nil
  then show ?thesis by (simp add: token_update_def stream_inv_Nil)
next
  case (snoc xs x)
  assume "stream_inv ms"
  with snoc show ?thesis
    by (simp add: token_update_snoc stream_inv_snoc streaming_entry_def)
qed

lemma stream_inv_complete_update: "stream_inv ms \<Longrightarrow> stream_inv (complete_update ms)"
proof (cases ms rule: rev_cases)
  case Nil
  then show ?thesis by (simp add: complete_update_def stream_inv_Nil)
next
  case (snoc xs x)
  assume "stream_inv ms"
  with snoc show ?thesis
    by (simp add: complete_update_snoc stream_inv_snoc streaming_entry_def)
qed

text \<open>One event keeps the invariant, provided it does not append during a response.\<close>

lemma stream_inv_deliver:
  assumes inv: "stream_inv (messages s)"
    and ord: "opens_entry p \<longrightarrow> \<not> in_progress (messages s)"
  shows "stream_inv (messages (deliver p s))"
proof (cases p)
  case Unparseable
  with inv show ?thesis by (simp add: deliver_def onmessage_def)
next
  case NullValue
  with inv show ?thesis by (simp add: deliver_def onmessage_def)
next
  case (Envelope t d)
  consider (start) "t = Some ''start''" | (token) "t = Some ''token''"
    | (complete) "t = Some ''complete''" | (error) "t = Some ''error''"
    | (other) "t \<noteq> Some ''start''" "t \<noteq> Some ''token''"
        "t \<noteq> Some ''complete''" "t \<noteq> Some ''error''"
    by blast
  then show ?thesis
  proof cases
    case start
    with Envelope ord have "\<not> in_progress (messages s)" by (simp add: opens_entry_def)
    with inv have "\<forall>x \<in> set (messages s). \<not> streaming_entry x" by (rule idle_no_streaming)
    with Envelope start show ?thesis
      by (simp add: deliver_def onmessage_def stream_inv_snoc)
  next
    case token
    with Envelope inv show ?thesis
      by (simp add: deliver_def onmessage_def Let_def stream_inv_token_update)
  next
    case complete
    with Envelope inv show ?thesis
      by (simp add: deliver_def onmessage_def stream_inv_complete_update)
  next
    case error
    with Envelope ord have "\<not> in_progress (messages s)" by (simp add: opens_entry_def)
    with inv have "\<forall>x \<in> set (messages s). \<not> streaming_entry x" by (rule idle_no_streaming)
    with Envelope error show ?thesis
      by (simp add: deliver_def onmessage_def stream_inv_snoc streaming_entry_def)
  next
    case other
    with Envelope inv show ?thesis by (simp add: deliver_def onmessage_def)
  qed
qed

lemma stream_inv_run:
  "stream_inv (messages s) \<Longrightarrow> orderly ps s \<Longrightarrow> stream_inv (messages (run ps s))"
proof (induction ps arbitrary: s)
  case Nil
  then show ?case by simp
next
  case (Cons p ps)
  from Cons.prems have "stream_inv (messages (deliver p s))"
    by (simp add: stream_inv_deliver)
  moreover from Cons.prems have "orderly ps (deliver p s)" by simp
  ultimately show ?case using Cons.IH by simp
qed

lemma orderly_take: "orderly ps s \<Longrightarrow> orderly (take n ps) s"
proof (induction ps arbitrary: n s)
  case Nil
  then show ?case by simp
next
  case (Cons p ps)
  then show ?case by (cases n) simp_all
qed

lemma stream_inv_count: "stream_inv ms \<Longrightarrow> length (filter streaming_entry ms) \<le> 1"
proof (cases ms rule: rev_cases)
  case Nil
  then show ?thesis by simp
next
  case (snoc xs x)
  assume "stream_inv ms"
  with snoc have "filter streaming_entry xs = []"
    by (simp add: stream_inv_snoc filter_empty_conv)
  with snoc show ?thesis by simp
qed

lemma stream_inv_position:
  assumes "stream_inv ms" and "i < length ms" and "streaming_entry (ms ! i)"
  shows "Suc i = length ms \<and> msg_type (ms ! i) = Assistant"
proof (cases ms rule: rev_cases)
  case Nil
  with assms show ?thesis by simp
next
  case (snoc xs x)
  with assms have none: "\<forall>y \<in> set xs. \<not> streaming_entry y"
    and last: "streaming_entry x \<longrightarrow> msg_type x = Assistant"
    by (simp_all add: stream_inv_snoc)
  have "\<not> i < length xs"
  proof
    assume "i < length xs"
    with snoc assms(3) have "streaming_entry (xs ! i)" by (simp add: nth_append)
    with none \<open>i < length xs\<close> show False by (meson nth_mem)
  qed
  with snoc assms(2) have "i = length xs" by simp
  with snoc assms(3) last show ?thesis by simp
qed

text \<open>
  Claim C1, as stated, fails: two \<open>start\<close> events in a row, from the initial state,
  leave two entries with the streaming flag set.
\<close>

theorem two_starts_counterexample:
  "length (filter streaming_entry (messages (run [start_event, start_event] initial_state))) = 2"
  by (simp add: initial_state_def deliver_def onmessage_def streaming_entry_def)

text \<open>
  Claim C1, amended. Start from a transcript in which no entry but the last is streaming
  (the empty transcript is one), and process an orderly sequence of events: every
  \<open>start\<close> or \<open>error\<close> event arrives while no response is in progress. Then after
  every prefix of the sequence at most one entry is streaming, and a streaming entry is
  the last entry of the transcript and an assistant entry.
\<close>

theorem one_streaming_entry_last:
  assumes "stream_inv (messages s)" and "orderly ps s"
  shows "length (filter streaming_entry (messages (run (take n ps) s))) \<le> 1
       \<and> (\<forall>i < length (messages (run (take n ps) s)).
            streaming_entry (messages (run (take n ps) s) ! i) \<longrightarrow>
              Suc i = length (messages (run (take n ps) s))
              \<and> msg_type (messages (run (take n ps) s) ! i) = Assistant)"
proof -
  from assms(2) have "orderly (take n ps) s" by (rule orderly_take)
  with assms(1) have "stream_inv (messages (run (take n ps) s))" by (rule stream_inv_run)
  then show ?thesis
    using stream_inv_count stream_inv_position by blast
qed

text \<open>
  Witness for C1: \<open>example_events\<close> is orderly from the initial state; after five of
  its events at most one entry is streaming, and after three of them exactly one is.
\<close>

theorem one_streaming_entry_last_witness:
  "stream_inv (messages initial_state) \<and> orderly example_events initial_state
   \<and> length (filter streaming_entry (messages (run (take 5 example_events) initial_state))) \<le> 1
   \<and> length (filter streaming_entry (messages (run (take 3 example_events) initial_state))) = 1"
proof -
  have h1: "stream_inv (messages initial_state)"
    by (simp add: initial_state_def stream_inv_Nil)
  have h2: "orderly example_events initial_state"
    by (simp add: example_events_def initial_state_def deliver_def onmessage_def
        opens_entry_def in_progress_def streaming_entry_def to_string_def
        token_update_def complete_update_def Let_def)
  have h3: "length (filter streaming_entry
              (messages (run (take 3 example_events) initial_state))) = 1"
    by (simp add: example_events_def initial_state_def deliver_def onmessage_def
        streaming_entry_def to_string_def token_update_def Let_def)
  from one_streaming_entry_last[OF h1 h2, of 5] h1 h2 h3 show ?thesis by blast
qed

section \<open>Frames that are not envelopes\<close>

text \<open>
  Claim C2, as stated, fails: on a frame that is not JSON the handler throws.
\<close>

theorem malformed_payload_counterexample:
  "onmessage Unparseable initial_state = Inl SyntaxError"
  by (simp add: onmessage_def)

text \<open>
  Claim C2, amended. On a frame that is not JSON the handler throws the \<open>SyntaxError\<close>
  of \<open>JSON.parse\<close>, and on the JSON value \<open>null\<close> a \<open>TypeError\<close>; neither is caught in
  the handler. Both leave the whole state, with the transcript, the connection state and
  the streaming flag, as it was. Any other JSON value whose \<open>type\<close> is missing or is
  not one of \<open>start\<close>, \<open>token\<close>, \<open>complete\<close> and \<open>error\<close> is dropped without an
  exception and without a change.
\<close>

theorem malformed_payload_throws:
  "onmessage Unparseable s = Inl SyntaxError \<and> deliver Unparseable s = s
   \<and> onmessage NullValue s = Inl TypeError \<and> deliver NullValue s = s
   \<and> (t \<notin> {Some ''start'', Some ''token'', Some ''complete'', Some ''error''} \<longrightarrow>
        onmessage (Envelope t d) s = Inr s \<and> deliver (Envelope t d) s = s)"
  by (simp add: onmessage_def deliver_def)

text \<open>
  Witness for C2: in the middle of a response, a frame whose \<open>type\<close> is \<open>Start\<close>
  (not the \<open>start\<close> of the protocol) and a frame without a \<open>type\<close> are dropped.
\<close>

theorem malformed_payload_throws_witness:
  "Some ''Start'' \<notin> {Some ''start'', Some ''token'', Some ''complete'', Some ''error''}
   \<and> onmessage (Envelope (Some ''Start'') (Some ''x'')) mid_stream_state = Inr mid_stream_state
   \<and> None \<notin> {Some ''start'', Some ''token'', Some ''complete'', Some ''error''}
   \<and> onmessage (Envelope None None) mid_stream_state = Inr mid_stream_state
   \<and> deliver Unparseable mid_stream_state = mid_stream_state"
proof -
  have h1: "Some ''Start'' \<notin> {Some ''start'', Some ''token'', Some ''complete'', Some ''error''}"
    by simp
  have h2: "None \<notin> {Some ''start'', Some ''token'', Some ''complete'', Some ''error''}"
    by simp
  from malformed_payload_throws[of mid_stream_state "Some ''Start''" "Some ''x''"]
    malformed_payload_throws[of mid_stream_state None None] h1 h2
  show ?thesis by blast
qed

section \<open>Closing the channel\<close>

lemma onclose_frame:
  "messages (onclose s) = messages s \<and> \<not> isConnected (onclose s) \<and> \<not> isStreaming (onclose s)"
  by (simp add: onclose_def)

text \<open>
  Claim C3 at the input \<open>start\<close>, one \<open>token\<close>, close. The client is disconnected,
  its own streaming flag is false and the entry has the text received so far, but the
  streaming flag of the entry is still true: \<open>onclose\<close> does not touch the transcript,
  where the \<open>complete\<close> branch of \<open>onmessage\<close> clears both flags.
\<close>

theorem close_mid_stream_entry_still_streaming:
  "messages closed_mid_stream =
     [\<lparr>msg_type = Assistant, content = Some ''The '', msg_isStreaming = Some True\<rparr>]
   \<and> isConnected closed_mid_stream = False
   \<and> isStreaming closed_mid_stream = False"
  by (simp add: closed_mid_stream_def onclose_def onopen_def initial_state_def
      deliver_def onmessage_def to_string_def token_update_def streaming_entry_def Let_def)

section \<open>The send guard\<close>

text \<open>
  Claim C5. When the trimmed draft is empty (the draft is blank), or the client is not
  connected, or a response is streaming, \<open>sendMessage\<close> changes neither the transcript
  nor the list of frames sent. Otherwise it appends one user entry with the draft as its
  text to the transcript and one frame with the draft to the frames sent.
\<close>

theorem send_gate:
  "(trim (currentMessage s) = [] \<or> \<not> isConnected s \<or> isStreaming s \<longrightarrow>
      messages (sendMessage s) = messages s \<and> sent (sendMessage s) = sent s)
   \<and> (\<not> (trim (currentMessage s) = [] \<or> \<not> isConnected s \<or> isStreaming s) \<longrightarrow>
      messages (sendMessage s) = messages s @
        [\<lparr>msg_type = User, content = Some (currentMessage s), msg_isStreaming = None\<rparr>]
      \<and> sent (sendMessage s) = sent s @ [currentMessage s])"
  by (simp add: sendMessage_def)

text \<open>
  Witness for C5: the drafts of \<open>blank_state\<close> (spaces) and of \<open>nbsp_state\<close>
  (Unicode white space) and the streaming \<open>mid_stream_state\<close> are rejected; the draft
  of \<open>ready_state\<close> is sent.
\<close>

theorem send_gate_witness:
  "trim (currentMessage blank_state) = []
   \<and> messages (sendMessage blank_state) = [] \<and> sent (sendMessage blank_state) = []
   \<and> trim (currentMessage nbsp_state) = []
   \<and> messages (sendMessage nbsp_state) = [] \<and> sent (sendMessage nbsp_state) = []
   \<and> isStreaming mid_stream_state
   \<and> length (messages (sendMessage mid_stream_state)) = 2
   \<and> sent (sendMessage mid_stream_state) = [''hi'']
   \<and> \<not> (trim (currentMessage ready_state) = [] \<or> \<not> isConnected ready_state
         \<or> isStreaming ready_state)
   \<and> messages (sendMessage ready_state) =
       [\<lparr>msg_type = User, content = Some ''hello'', msg_isStreaming = None\<rparr>]
   \<and> sent (sendMessage ready_state) = [''hello'']"
proof -
  have b: "trim (currentMessage blank_state) = []"
    by (simp add: blank_state_def initial_state_def trim_def trimEnd_def is_ws_def
        white_space_def)
  have n: "trim (currentMessage nbsp_state) = []"
    by (simp add: nbsp_state_def initial_state_def trim_def trimEnd_def is_ws_def
        white_space_def)
  have nm: "messages nbsp_state = [] \<and> sent nbsp_state = []"
    by (simp add: nbsp_state_def initial_state_def)
  have bm: "messages blank_state = [] \<and> sent blank_state = []"
    by (simp add: blank_state_def initial_state_def)
  have m: "isStreaming mid_stream_state \<and> length (messages mid_stream_state) = 2
           \<and> sent mid_stream_state = [''hi'']"
    by (simp add: mid_stream_state_def initial_state_def)
  have r: "\<not> (trim (currentMessage ready_state) = [] \<or> \<not> isConnected ready_state
         \<or> isStreaming ready_state)"
    by (simp add: ready_state_def initial_state_def trim_def trimEnd_def is_ws_def
        white_space_def)
  have rm: "messages ready_state = [] \<and> sent ready_state = []
            \<and> currentMessage ready_state = ''hello''"
    by (simp add: ready_state_def initial_state_def)
  from send_gate[of blank_state] send_gate[of nbsp_state] send_gate[of mid_stream_state]
    send_gate[of ready_state] b bm n nm m r rm
  show ?thesis by simp
qed

section \<open>Failed and empty REST calls\<close>

lemma clearChat_rejected:
  "messages (clearChat Rejected s) = messages s
   \<and> notices (clearChat Rejected s) = notices s @ [NError ''Failed to clear chat'']"
  by (simp add: clearChat_def)

lemma clearChat_resolved:
  "messages (clearChat (Resolved resp) s) = []
   \<and> requests (clearChat (Resolved resp) s) =
       requests s @ [POST ''http://localhost:8000/chat/clear'']"
  by (simp add: clearChat_def)

text \<open>
  Claim C4 at the input: the reset endpoint answers with HTTP status 500. \<open>clearChat\<close>
  does not look at \<open>response.ok\<close> (\<open>handleFileUpload\<close> and \<open>deleteDocument\<close> do): it
  empties the transcript and reports success.
\<close>

theorem clear_after_http_error:
  "messages answered_state \<noteq> []
   \<and> messages (clearChat http_error_text answered_state) = []
   \<and> notices (clearChat http_error_text answered_state) =
       [NSuccess ''Chat cleared successfully'']"
  by (simp add: clearChat_def http_error_text_def answered_state_def initial_state_def)

lemma fetchDocuments_failed:
  "r = Rejected \<or> r = Resolved \<lparr>ok = b, json = None\<rparr> \<Longrightarrow>
   documents (fetchDocuments r s) = documents s
   \<and> notices (fetchDocuments r s) = notices s @ [NError ''Failed to fetch documents'']"
  by (auto simp add: fetchDocuments_def)

lemma fetchDocuments_resolved:
  "documents (fetchDocuments (Resolved \<lparr>ok = b, json = Some docs\<rparr>) s) = docs
   \<and> notices (fetchDocuments (Resolved \<lparr>ok = b, json = Some docs\<rparr>) s) = notices s"
  by (simp add: fetchDocuments_def)

text \<open>
  Claim C8 at the input: \<open>GET /documents\<close> answers with HTTP status 500 and the JSON
  body \<open>{}\<close>. \<open>fetchDocuments\<close> does not look at \<open>response.ok\<close> either: the snapshot
  of one document is replaced by the body of the error response, and no notification is
  shown.
\<close>

theorem list_after_http_error:
  "documents listed_state =
     JDocs [\<lparr>filename = ''report.txt'', doc_type = ''text/plain'', doc_size = 12\<rparr>]
   \<and> documents (fetchDocuments http_error_json listed_state) = JOther ''{}''
   \<and> notices (fetchDocuments http_error_json listed_state) = []"
  by (simp add: fetchDocuments_def http_error_json_def listed_state_def initial_state_def)

text \<open>
  Claim C10. With an empty file list \<open>handleFileUpload\<close> returns at once, whatever the
  backend would answer: the state is the one before the call, so no request was issued,
  the upload status was not set and the document snapshot is the same.
\<close>

theorem upload_without_file_noop:
  "handleFileUpload [] up ls s = s
   \<and> requests (handleFileUpload [] up ls s) = requests s
   \<and> uploadProgress (handleFileUpload [] up ls s) = uploadProgress s
   \<and> documents (handleFileUpload [] up ls s) = documents s"
  by (simp add: handleFileUpload_def)

end
